theory Spec2Isabelle
  imports Main
begin

section \<open>The store\<close>

text \<open>
  \<^verbatim>\<open>tournament.py\<close> keeps its data in a PostgreSQL database with two tables. The
  statements of the program name their columns: \<^verbatim>\<open>players(id, name)\<close> and
  \<^verbatim>\<open>matches(match_id, winner_id, loser_id, tournament_id)\<close>. A table is a list of rows;
  the order of the list is the order in which an unordered \<^verbatim>\<open>SELECT\<close> delivers the rows.
  Both keys are filled in by the store on \<^verbatim>\<open>INSERT\<close> (\<^verbatim>\<open>RETURNING id\<close> in
  \<^verbatim>\<open>register_player\<close>; \<^verbatim>\<open>report_match\<close> never supplies \<^verbatim>\<open>match_id\<close>), so the
  database carries one counter for each.
\<close>

record player =
  player_id :: int
  player_name :: string

record match =
  match_id :: int
  winner_id :: int
  loser_id :: int
  tournament_id :: int

record database =
  players :: "player list"
  matches :: "match list"
  players_id_seq :: int
  matches_match_id_seq :: int

text \<open>
  The exceptions that the modelled code can raise: \<^verbatim>\<open>TypeError\<close> when the pair
  \<^verbatim>\<open>db, cursor\<close> is unpacked from the \<^verbatim>\<open>None\<close> that \<^verbatim>\<open>connect\<close> returns after a
  failed connection, \<^verbatim>\<open>IndexError\<close> for a list index out of range, and the two
  exceptions with which \<^verbatim>\<open>cursor.execute\<close> passes on a rejected \<^verbatim>\<open>INSERT\<close>:
  \<^verbatim>\<open>DataError\<close> for a value that does not fit its column and \<^verbatim>\<open>IntegrityError\<close>
  for a violated constraint.
\<close>

datatype error = TypeError | IndexError | DataError | IntegrityError

text \<open>
  The server is either unreachable (\<open>None\<close>) or holds a database. \<^verbatim>\<open>connect\<close>
  swallows the exception of a failed connection and returns \<^verbatim>\<open>None\<close>; every caller
  then fails in \<^verbatim>\<open>db, cursor = connect()\<close>.
\<close>

type_synonym server = "database option"

definition connect :: "server \<Rightarrow> error + database" where
  "connect srv = (case srv of None \<Rightarrow> Inl TypeError | Some db \<Rightarrow> Inr db)"

text \<open>
  Modelled from the spec: the schema (\<^verbatim>\<open>tournament.sql\<close>) is not among the sources.
  \<^verbatim>\<open>TRUNCATE players CASCADE\<close> empties \<^verbatim>\<open>players\<close> and every table that references
  it. The docstring of \<^verbatim>\<open>delete_players\<close> (removes "all the player as well as match
  records") and the third To-Do of the module ("matches table is dependant on players
  table") say that \<^verbatim>\<open>matches\<close> is such a table.
\<close>

definition matches_references_players :: bool where
  "matches_references_players = True"

definition delete_matches :: "server \<Rightarrow> error + database" where
  "delete_matches srv =
     (case connect srv of
        Inl e \<Rightarrow> Inl e
      | Inr db \<Rightarrow> Inr (db\<lparr>matches := []\<rparr>))"

definition delete_players :: "server \<Rightarrow> error + database" where
  "delete_players srv =
     (case connect srv of
        Inl e \<Rightarrow> Inl e
      | Inr db \<Rightarrow>
          Inr (db\<lparr>players := [],
                  matches := (if matches_references_players then [] else matches db)\<rparr>))"

definition register_player :: "string \<Rightarrow> server \<Rightarrow> error + (int \<times> database)" where
  "register_player name srv =
     (case connect srv of
        Inl e \<Rightarrow> Inl e
      | Inr db \<Rightarrow>
          (let return_id = players_id_seq db + 1
           in Inr (return_id,
                   db\<lparr>players := players db @ [\<lparr>player_id = return_id, player_name = name\<rparr>],
                      players_id_seq := return_id\<rparr>)))"

text \<open>
  Modelled from the spec: the columns of \<^verbatim>\<open>matches\<close> are declared in the schema, which
  is not among the sources. The ids are integers (the docstrings: "the id number of the
  player", "the id (integer) of the tournament"), which in PostgreSQL is the 32-bit
  \<^verbatim>\<open>INTEGER\<close>; a value outside its range is refused.
\<close>

definition fits_integer :: "int \<Rightarrow> bool" where
  "fits_integer x = (- 2147483648 \<le> x \<and> x \<le> 2147483647)"

text \<open>
  \<^verbatim>\<open>report_match\<close> hands its three arguments to one \<^verbatim>\<open>INSERT\<close> and checks nothing
  itself. The store refuses the row when a value does not fit its column, and, with
  \<^verbatim>\<open>matches\<close> referencing \<^verbatim>\<open>players\<close>, when the winner or the loser is not a
  registered player; the exception leaves the function before \<^verbatim>\<open>commit\<close>, and both
  tables stay as they were. The only trace of a refused row would be a gap in the
  values of \<^verbatim>\<open>match_id\<close>, which the program never reads.
\<close>

definition report_match :: "int \<Rightarrow> int \<Rightarrow> int \<Rightarrow> server \<Rightarrow> error + database" where
  "report_match winner loser t srv =
     (case connect srv of
        Inl e \<Rightarrow> Inl e
      | Inr db \<Rightarrow>
          if \<not> (fits_integer winner \<and> fits_integer loser \<and> fits_integer t)
          then Inl DataError
          else if matches_references_players \<and>
                  \<not> (winner \<in> set (map player_id (players db)) \<and>
                     loser \<in> set (map player_id (players db)))
          then Inl IntegrityError
          else
            (let new_id = matches_match_id_seq db + 1
             in Inr (db\<lparr>matches := matches db @
                          [\<lparr>match_id = new_id, winner_id = winner, loser_id = loser,
                            tournament_id = t\<rparr>],
                        matches_match_id_seq := new_id\<rparr>)))"

section \<open>The views\<close>

text \<open>
  Modelled from the spec: the views \<^verbatim>\<open>games_won\<close>, \<^verbatim>\<open>num_matches\<close> and \<^verbatim>\<open>omw\<close> that
  the query of \<^verbatim>\<open>player_standings\<close> reads are declared in the schema, which is not
  among the sources. Their columns are the ones the query names. Their contents follow
  the spec (section 4.1, step 3): \<open>wins\<close> is the count of matches where the player is
  the winner, \<open>games_played\<close> the count of matches where the player is winner or loser,
  and \<open>opponent_wins\<close> the sum, over each distinct opponent the player has faced, of
  that opponent's own wins. Each is a function of the match rows it is given; a view
  has a row for every registered player where the query needs one for the unscoped
  standings (\<^verbatim>\<open>games_won\<close>, \<^verbatim>\<open>num_matches\<close>), and \<^verbatim>\<open>omw\<close> has a row for every
  player id that occurs in a match.
\<close>

definition wins_in :: "match list \<Rightarrow> int \<Rightarrow> int" where
  "wins_in ms p = int (length (filter (\<lambda>m. winner_id m = p) ms))"

definition games_played_in :: "match list \<Rightarrow> int \<Rightarrow> int" where
  "games_played_in ms p = int (length (filter (\<lambda>m. winner_id m = p \<or> loser_id m = p) ms))"

definition opponents_in :: "match list \<Rightarrow> int \<Rightarrow> int list" where
  "opponents_in ms p =
     remdups (concat (map (\<lambda>m. (if winner_id m = p then [loser_id m] else []) @
                               (if loser_id m = p then [winner_id m] else [])) ms))"

definition games_won :: "player list \<Rightarrow> match list \<Rightarrow> (int \<times> string \<times> int) list" where
  "games_won ps ms = map (\<lambda>p. (player_id p, player_name p, wins_in ms (player_id p))) ps"

definition num_matches :: "player list \<Rightarrow> match list \<Rightarrow> (int \<times> int) list" where
  "num_matches ps ms = map (\<lambda>p. (player_id p, games_played_in ms (player_id p))) ps"

definition omw :: "match list \<Rightarrow> (int \<times> int) list" where
  "omw ms =
     map (\<lambda>x. (x, sum_list (map (wins_in ms) (opponents_in ms x))))
         (remdups (concat (map (\<lambda>m. [winner_id m, loser_id m]) ms)))"

section \<open>Standings\<close>

text \<open>
  A row of the join inside \<^verbatim>\<open>player_standings\<close>, before the outer \<^verbatim>\<open>SELECT\<close> drops
  \<open>opponent_wins\<close>.
\<close>

record ranked =
  r_id :: int
  r_name :: string
  r_wins :: int
  r_opponent_wins :: int
  r_games_played :: int

text \<open>
  \<^verbatim>\<open>ORDER BY wins DESC, opponent_wins DESC, games_played ASC\<close>: the row \<open>a\<close> may stand
  before the row \<open>b\<close>.
\<close>

definition ranks_before :: "ranked \<Rightarrow> ranked \<Rightarrow> bool" where
  "ranks_before a b =
     (r_wins a > r_wins b \<or>
      (r_wins a = r_wins b \<and>
       (r_opponent_wins a > r_opponent_wins b \<or>
        (r_opponent_wins a = r_opponent_wins b \<and> r_games_played a \<le> r_games_played b))))"

text \<open>
  SQL leaves the order of rows with equal keys to the store; the model keeps them in the
  order of the join (a stable insertion sort).
\<close>

fun order_insert :: "ranked \<Rightarrow> ranked list \<Rightarrow> ranked list" where
  "order_insert a [] = [a]"
| "order_insert a (b # bs) =
     (if ranks_before a b then a # b # bs else b # order_insert a bs)"

fun order_by :: "ranked list \<Rightarrow> ranked list" where
  "order_by [] = []"
| "order_by (a # as) = order_insert a (order_by as)"

text \<open>
  \<^verbatim>\<open>games_won LEFT JOIN omw ON id = x\<close> with \<^verbatim>\<open>COALESCE(opponent_wins, 0)\<close>: a row of
  \<^verbatim>\<open>games_won\<close> without a partner in \<^verbatim>\<open>omw\<close> is kept, with 0.
\<close>

definition subQuery :: "(int \<times> string \<times> int) list \<Rightarrow> (int \<times> int) list \<Rightarrow>
    (int \<times> string \<times> int \<times> int) list" where
  "subQuery gw om =
     concat (map (\<lambda>(i, n, w).
               (case filter (\<lambda>(x, ow). i = x) om of
                  [] \<Rightarrow> [(i, n, w, 0)]
                | rs \<Rightarrow> map (\<lambda>(x, ow). (i, n, w, ow)) rs)) gw)"

text \<open>
  The query of the general case: \<^verbatim>\<open>num_matches\<close> joined with the subquery on the
  player id, restricted to \<^verbatim>\<open>games_played > 0\<close> when \<open>restricted\<close>, and ordered.
  Nothing but this flag reaches the query from the tournament id.
\<close>

definition standings_query :: "(int \<times> int) list \<Rightarrow> (int \<times> string \<times> int) list \<Rightarrow>
    (int \<times> int) list \<Rightarrow> bool \<Rightarrow> ranked list" where
  "standings_query nm gw om restricted =
     order_by (concat (map (\<lambda>(ni, gp).
       map (\<lambda>(i, n, w, ow).
              \<lparr>r_id = i, r_name = n, r_wins = w, r_opponent_wins = ow, r_games_played = gp\<rparr>)
           (filter (\<lambda>(i, n, w, ow). i = ni \<and> (if restricted then gp > 0 else True))
                   (subQuery gw om))) nm))"

text \<open>The views are read as they stand in the database: over the whole tables.\<close>

definition standings_rows :: "database \<Rightarrow> int \<Rightarrow> ranked list" where
  "standings_rows db t =
     standings_query (num_matches (players db) (matches db))
                     (games_won (players db) (matches db))
                     (omw (matches db)) (t \<noteq> 0)"

definition total_matches :: "database \<Rightarrow> int \<Rightarrow> int" where
  "total_matches db t = int (length (filter (\<lambda>m. tournament_id m = t) (matches db)))"

type_synonym standing = "int \<times> string \<times> int \<times> int"

definition select_row :: "ranked \<Rightarrow> standing" where
  "select_row r = (r_id r, r_name r, r_wins r, r_games_played r)"

definition player_standings :: "int \<Rightarrow> server \<Rightarrow> error + standing list" where
  "player_standings t srv =
     (case connect srv of
        Inl e \<Rightarrow> Inl e
      | Inr db \<Rightarrow>
          (if total_matches db t = 0
           then Inr (map (\<lambda>p. (player_id p, player_name p, 0, 0)) (players db))
           else Inr (map select_row (standings_rows db t))))"

section \<open>Pairings\<close>

text \<open>Reading a Python list at a non-negative index.\<close>

definition py_index :: "'a list \<Rightarrow> nat \<Rightarrow> error + 'a" where
  "py_index xs i = (if i < length xs then Inr (xs ! i) else Inl IndexError)"

type_synonym pairing = "int \<times> string \<times> int \<times> string"

text \<open>
  The \<^verbatim>\<open>while\<close> loop of \<^verbatim>\<open>swiss_pairings\<close>; \<open>iii\<close> starts at 1 and grows by 2, so
  \<open>iii - 1\<close> is never negative.
\<close>

function pairings_loop :: "standing list \<Rightarrow> nat \<Rightarrow> pairing list \<Rightarrow> error + pairing list" where
  "pairings_loop standings iii pairings =
     (if iii < length standings
      then (case py_index standings (iii - 1) of
              Inl e \<Rightarrow> Inl e
            | Inr tup1 \<Rightarrow>
                (case py_index standings iii of
                   Inl e \<Rightarrow> Inl e
                 | Inr tup2 \<Rightarrow>
                     pairings_loop standings (iii + 2)
                       (pairings @ [(fst tup1, fst (snd tup1), fst tup2, fst (snd tup2))])))
      else Inr pairings)"
  by pat_completeness auto
termination
  by (relation "measure (\<lambda>(standings, iii, pairings). length standings - iii)") auto

declare pairings_loop.simps [simp del]

definition swiss_pairings :: "int \<Rightarrow> server \<Rightarrow> error + pairing list" where
  "swiss_pairings t srv =
     (case player_standings t srv of
        Inl e \<Rightarrow> Inl e
      | Inr standings \<Rightarrow> pairings_loop standings 1 [])"

section \<open>Notions used to state the properties\<close>

text \<open>The player ids of a list of pairings, in the order in which they are named.\<close>

definition pairing_ids :: "pairing list \<Rightarrow> int list" where
  "pairing_ids ps = concat (map (\<lambda>(id1, name1, id2, name2). [id1, id2]) ps)"

text \<open>The matches recorded under one tournament.\<close>

definition matches_under :: "int \<Rightarrow> database \<Rightarrow> match list" where
  "matches_under t db = filter (\<lambda>m. tournament_id m = t) (matches db)"

text \<open>The sums of the third and of the fourth component of the returned tuples.\<close>

definition sum_wins :: "standing list \<Rightarrow> int" where
  "sum_wins rows = sum_list (map (\<lambda>(i, n, wins, games). wins) rows)"

definition sum_games_played :: "standing list \<Rightarrow> int" where
  "sum_games_played rows = sum_list (map (\<lambda>(i, n, wins, games). games) rows)"

text \<open>
  The row that the join of the three views holds for a registered player: the counts are
  taken over the match rows \<open>ms\<close> that the views read.
\<close>

definition joined_row :: "match list \<Rightarrow> player \<Rightarrow> ranked" where
  "joined_row ms p =
     \<lparr>r_id = player_id p, r_name = player_name p, r_wins = wins_in ms (player_id p),
      r_opponent_wins = sum_list (map (wins_in ms) (opponents_in ms (player_id p))),
      r_games_played = games_played_in ms (player_id p)\<rparr>"

text \<open>
  Modelled from the spec: the constraints of the schema, which is not among the sources.
  Player ids are unique (the spec's "opaque unique identifier") and the winner and the
  loser of a match are registered players (the reference from \<^verbatim>\<open>matches\<close> to
  \<^verbatim>\<open>players\<close>). The predicate describes the stores in which both hold.
\<close>

definition store_constraints :: "database \<Rightarrow> bool" where
  "store_constraints db =
     (distinct (map player_id (players db)) \<and>
      (\<forall>m \<in> set (matches db).
         winner_id m \<in> set (map player_id (players db)) \<and>
         loser_id m \<in> set (map player_id (players db))))"

section \<open>Example stores\<close>

text \<open>
  One round and a half of a single tournament reported without a tournament id; a store
  whose only match belongs to tournament 2; two stores with matches of tournaments 1
  and 2.
\<close>

definition example_round :: database where
  "example_round =
     \<lparr>players = [\<lparr>player_id = 1, player_name = ''Attila''\<rparr>,
                 \<lparr>player_id = 2, player_name = ''Bleda''\<rparr>,
                 \<lparr>player_id = 3, player_name = ''Rugila''\<rparr>,
                 \<lparr>player_id = 4, player_name = ''Ernak''\<rparr>],
      matches = [\<lparr>match_id = 1, winner_id = 2, loser_id = 1, tournament_id = 0\<rparr>,
                 \<lparr>match_id = 2, winner_id = 3, loser_id = 4, tournament_id = 0\<rparr>,
                 \<lparr>match_id = 3, winner_id = 2, loser_id = 3, tournament_id = 0\<rparr>],
      players_id_seq = 4, matches_match_id_seq = 3\<rparr>"

definition example_other_scope :: database where
  "example_other_scope =
     \<lparr>players = [\<lparr>player_id = 1, player_name = ''Attila''\<rparr>,
                 \<lparr>player_id = 2, player_name = ''Bleda''\<rparr>,
                 \<lparr>player_id = 3, player_name = ''Rugila''\<rparr>],
      matches = [\<lparr>match_id = 1, winner_id = 1, loser_id = 2, tournament_id = 2\<rparr>],
      players_id_seq = 3, matches_match_id_seq = 1\<rparr>"

definition example_two_scopes :: database where
  "example_two_scopes =
     \<lparr>players = [\<lparr>player_id = 1, player_name = ''Attila''\<rparr>,
                 \<lparr>player_id = 2, player_name = ''Bleda''\<rparr>],
      matches = [\<lparr>match_id = 1, winner_id = 1, loser_id = 2, tournament_id = 1\<rparr>,
                 \<lparr>match_id = 2, winner_id = 2, loser_id = 1, tournament_id = 2\<rparr>,
                 \<lparr>match_id = 3, winner_id = 2, loser_id = 1, tournament_id = 2\<rparr>],
      players_id_seq = 2, matches_match_id_seq = 3\<rparr>"

definition example_three :: database where
  "example_three =
     \<lparr>players = [\<lparr>player_id = 1, player_name = ''Attila''\<rparr>,
                 \<lparr>player_id = 2, player_name = ''Bleda''\<rparr>,
                 \<lparr>player_id = 3, player_name = ''Rugila''\<rparr>],
      matches = [\<lparr>match_id = 1, winner_id = 1, loser_id = 2, tournament_id = 1\<rparr>,
                 \<lparr>match_id = 2, winner_id = 3, loser_id = 2, tournament_id = 2\<rparr>,
                 \<lparr>match_id = 3, winner_id = 3, loser_id = 1, tournament_id = 2\<rparr>],
      players_id_seq = 3, matches_match_id_seq = 3\<rparr>"

section \<open>The loop of the pairings\<close>

lemma pairings_loop_unfold:
  "odd iii \<Longrightarrow>
   pairings_loop standings iii pairings =
     Inr (pairings @
          map (\<lambda>i. (fst (standings ! (2 * i)), fst (snd (standings ! (2 * i))),
                     fst (standings ! (2 * i + 1)), fst (snd (standings ! (2 * i + 1)))))
              [iii div 2 ..< length standings div 2])"
proof (induction standings iii pairings rule: pairings_loop.induct)
  case (1 standings iii pairings)
  from \<open>odd iii\<close> obtain k where k: "iii = 2 * k + 1"
    by (auto elim: oddE)
  show ?case
  proof (cases "iii < length standings")
    case True
    then have lt: "k < length standings div 2"
      using k by arith
    have idx1: "py_index standings (iii - 1) = Inr (standings ! (2 * k))"
      using True k by (simp add: py_index_def)
    have idx2: "py_index standings iii = Inr (standings ! (2 * k + 1))"
      using True k by (simp add: py_index_def)
    have odd2: "odd (iii + 2)"
      using \<open>odd iii\<close> by simp
    have step: "pairings_loop standings iii pairings =
        pairings_loop standings (iii + 2)
          (pairings @ [(fst (standings ! (2 * k)), fst (snd (standings ! (2 * k))),
                        fst (standings ! (2 * k + 1)), fst (snd (standings ! (2 * k + 1))))])"
      using True idx1 idx2 by (subst pairings_loop.simps) simp
    have ih: "pairings_loop standings (iii + 2)
          (pairings @ [(fst (standings ! (2 * k)), fst (snd (standings ! (2 * k))),
                        fst (standings ! (2 * k + 1)), fst (snd (standings ! (2 * k + 1))))]) =
        Inr ((pairings @ [(fst (standings ! (2 * k)), fst (snd (standings ! (2 * k))),
                        fst (standings ! (2 * k + 1)), fst (snd (standings ! (2 * k + 1))))]) @
          map (\<lambda>i. (fst (standings ! (2 * i)), fst (snd (standings ! (2 * i))),
                     fst (standings ! (2 * i + 1)), fst (snd (standings ! (2 * i + 1)))))
              [(iii + 2) div 2 ..< length standings div 2])"
      using "1.IH"[OF True idx1 idx2 odd2] .
    have half: "(iii + 2) div 2 = Suc k" "iii div 2 = k"
      using k by simp_all
    have range: "[k ..< length standings div 2] = k # [Suc k ..< length standings div 2]"
      using lt by (simp add: upt_conv_Cons)
    show ?thesis
      unfolding step ih half range by simp
  next
    case False
    then have "\<not> k < length standings div 2"
      using k by arith
    then have "[iii div 2 ..< length standings div 2] = []"
      using k by simp
    then show ?thesis
      using False by (subst pairings_loop.simps) simp
  qed
qed

lemma pairing_ids_snoc:
  "pairing_ids (ps @ [(a, n, b, m)]) = pairing_ids ps @ [a, b]"
  by (simp add: pairing_ids_def)

lemma pairing_ids_adjacent:
  "2 * k \<le> length standings \<Longrightarrow>
   pairing_ids (map (\<lambda>i. (fst (standings ! (2 * i)), fst (snd (standings ! (2 * i))),
                      fst (standings ! (2 * i + 1)), fst (snd (standings ! (2 * i + 1)))))
                    [0 ..< k]) =
   map fst (take (2 * k) standings)"
proof (induction k)
  case 0
  show ?case by (simp add: pairing_ids_def)
next
  case (Suc k)
  then have lt: "2 * k < length standings" "Suc (2 * k) < length standings"
    by simp_all
  have "take (2 * Suc k) standings =
        take (2 * k) standings @ [standings ! (2 * k), standings ! (2 * k + 1)]"
    using lt by (simp add: take_Suc_conv_app_nth)
  with Suc show ?case
    by (simp add: pairing_ids_snoc)
qed

section \<open>The order of the standings\<close>

lemma ranks_before_total: "\<not> ranks_before a b \<Longrightarrow> ranks_before b a"
  unfolding ranks_before_def by linarith

lemma ranks_before_trans: "ranks_before a b \<Longrightarrow> ranks_before b c \<Longrightarrow> ranks_before a c"
  unfolding ranks_before_def by linarith

lemma set_order_insert: "set (order_insert a bs) = insert a (set bs)"
  by (induction bs) auto

lemma sorted_order_insert:
  "sorted_wrt ranks_before bs \<Longrightarrow> sorted_wrt ranks_before (order_insert a bs)"
proof (induction bs)
  case Nil
  show ?case by simp
next
  case (Cons b bs)
  show ?case
  proof (cases "ranks_before a b")
    case True
    with Cons.prems show ?thesis
      by (auto intro: ranks_before_trans)
  next
    case False
    then have "ranks_before b a" by (rule ranks_before_total)
    with False Cons show ?thesis
      by (auto simp: set_order_insert)
  qed
qed

lemma sorted_order_by: "sorted_wrt ranks_before (order_by rs)"
  by (induction rs) (simp_all add: sorted_order_insert)

lemmas model_defs = player_standings_def connect_def total_matches_def standings_rows_def
     standings_query_def num_matches_def games_won_def omw_def subQuery_def wins_in_def games_played_in_def
     opponents_in_def ranks_before_def select_row_def

section \<open>Pairings from standings\<close>

text \<open>
  C4. \<^verbatim>\<open>swiss_pairings\<close> walks the standings in consecutive pairs that do not
  overlap: pairing \<open>i\<close> holds the id and name of the rows at ranks \<open>2i\<close> and
  \<open>2i + 1\<close>. The ids named by the pairings are the ids of the standings in their order,
  up to the last even position, so no id occurs in two pairings when the standings name
  each player once. For standings of odd length the result is the one computed without
  the last row: that player is left out, and the call does not fail.
\<close>

theorem swiss_pairings_adjacent:
  assumes "player_standings t srv = Inr standings"
  shows "\<exists>ps. swiss_pairings t srv = Inr ps \<and>
           ps = map (\<lambda>i. (fst (standings ! (2 * i)), fst (snd (standings ! (2 * i))),
                           fst (standings ! (2 * i + 1)), fst (snd (standings ! (2 * i + 1)))))
                    [0 ..< length standings div 2] \<and>
           pairing_ids ps = map fst (take (2 * (length standings div 2)) standings) \<and>
           (distinct (map fst standings) \<longrightarrow> distinct (pairing_ids ps)) \<and>
           (odd (length standings) \<longrightarrow> pairings_loop (butlast standings) 1 [] = Inr ps)"
proof -
  let ?pair = "\<lambda>st i. (fst (st ! (2 * i)), fst (snd (st ! (2 * i))),
                       fst (st ! (2 * i + 1)), fst (snd (st ! (2 * i + 1))))"
  let ?n = "length standings"
  let ?ps = "map (?pair standings) [0 ..< ?n div 2]"
  have run: "swiss_pairings t srv = Inr ?ps"
    using assms pairings_loop_unfold [of 1 standings "[]"]
    by (simp add: swiss_pairings_def)
  have ids: "pairing_ids ?ps = map fst (take (2 * (?n div 2)) standings)"
    by (rule pairing_ids_adjacent) simp
  have dist: "distinct (pairing_ids ?ps)" if "distinct (map fst standings)"
  proof -
    have "distinct (take (2 * (?n div 2)) (map fst standings))"
      using that by (rule distinct_take)
    then show ?thesis
      unfolding ids take_map .
  qed
  have dropped: "pairings_loop (butlast standings) 1 [] = Inr ?ps" if "odd ?n"
  proof -
    have half: "length (butlast standings) div 2 = ?n div 2"
      using that by (auto elim!: oddE)
    have same: "?pair (butlast standings) i = ?pair standings i" if "i < ?n div 2" for i
    proof -
      have "2 * i < length (butlast standings)" "2 * i + 1 < length (butlast standings)"
        using that \<open>odd ?n\<close> by (auto elim!: oddE)
      then show ?thesis
        by (simp add: nth_butlast)
    qed
    have "pairings_loop (butlast standings) 1 [] =
          Inr (map (?pair (butlast standings)) [0 ..< ?n div 2])"
      using pairings_loop_unfold [of 1 "butlast standings" "[]"] half by simp
    also have "map (?pair (butlast standings)) [0 ..< ?n div 2] = ?ps"
      using same by (intro map_cong) auto
    finally show ?thesis .
  qed
  from run ids dist dropped show ?thesis
    by blast
qed

theorem swiss_pairings_adjacent_witness:
  "player_standings 1 (Some example_other_scope) =
     Inr [(1, ''Attila'', 0, 0), (2, ''Bleda'', 0, 0), (3, ''Rugila'', 0, 0)] \<and>
   swiss_pairings 1 (Some example_other_scope) = Inr [(1, ''Attila'', 2, ''Bleda'')] \<and>
   pairing_ids [(1, ''Attila'', 2, ''Bleda'')] = [1, 2] \<and>
   distinct (pairing_ids [(1, ''Attila'', 2, ''Bleda'')]) \<and>
   pairings_loop [(1, ''Attila'', 0, 0), (2, ''Bleda'', 0, 0)] 1 [] = Inr [(1, ''Attila'', 2, ''Bleda'')]"
proof -
  have h: "player_standings 1 (Some example_other_scope) =
     Inr [(1, ''Attila'', 0, 0), (2, ''Bleda'', 0, 0), (3, ''Rugila'', 0, 0)]"
    by (simp add: example_other_scope_def player_standings_def connect_def total_matches_def)
  have upt: "[0..<Suc 0] = [0]" by simp
  from swiss_pairings_adjacent [OF h] h show ?thesis
    by (simp add: upt)
qed

text \<open>
  C9. For standings of length \<open>n\<close>, \<^verbatim>\<open>swiss_pairings\<close> returns \<open>n div 2\<close>
  pairings; with fewer than two rows it returns the empty list and raises nothing.
\<close>

theorem swiss_pairings_count:
  assumes "player_standings t srv = Inr standings"
  shows "\<exists>ps. swiss_pairings t srv = Inr ps \<and> length ps = length standings div 2 \<and>
           (length standings < 2 \<longrightarrow> ps = [])"
  using assms pairings_loop_unfold [of 1 standings "[]"]
  by (simp add: swiss_pairings_def)

theorem swiss_pairings_count_witness:
  "player_standings 1 (Some example_other_scope) =
     Inr [(1, ''Attila'', 0, 0), (2, ''Bleda'', 0, 0), (3, ''Rugila'', 0, 0)] \<and>
   (\<exists>ps. swiss_pairings 1 (Some example_other_scope) = Inr ps \<and> length ps = 1)"
proof -
  have h: "player_standings 1 (Some example_other_scope) =
     Inr [(1, ''Attila'', 0, 0), (2, ''Bleda'', 0, 0), (3, ''Rugila'', 0, 0)]"
    by (simp add: example_other_scope_def player_standings_def connect_def total_matches_def)
  from swiss_pairings_count [OF h] h show ?thesis
    by simp
qed

section \<open>Standings before any match of the tournament\<close>

text \<open>
  C5. When no match is recorded under the tournament asked for, whatever is recorded
  under other tournaments, \<^verbatim>\<open>player_standings\<close> returns every registered player with
  0 wins and 0 games, in the order in which the store lists the players: the same result
  as on the store without any match.
\<close>

theorem player_standings_bootstrap:
  assumes "total_matches db t = 0"
  shows "player_standings t (Some db) =
           Inr (map (\<lambda>p. (player_id p, player_name p, 0, 0)) (players db)) \<and>
         player_standings t (Some db) = player_standings t (Some (db\<lparr>matches := []\<rparr>))"
  using assms by (simp add: player_standings_def connect_def total_matches_def)

theorem player_standings_bootstrap_witness:
  "total_matches example_other_scope 1 = 0 \<and>
   matches example_other_scope \<noteq> [] \<and>
   player_standings 1 (Some example_other_scope) =
     Inr [(1, ''Attila'', 0, 0), (2, ''Bleda'', 0, 0), (3, ''Rugila'', 0, 0)] \<and>
   player_standings 1 (Some example_other_scope) =
     player_standings 1 (Some (example_other_scope\<lparr>matches := []\<rparr>))"
proof -
  have h: "total_matches example_other_scope 1 = 0"
    by (simp add: total_matches_def example_other_scope_def)
  have ps: "players example_other_scope =
      [\<lparr>player_id = 1, player_name = ''Attila''\<rparr>, \<lparr>player_id = 2, player_name = ''Bleda''\<rparr>,
       \<lparr>player_id = 3, player_name = ''Rugila''\<rparr>]"
    by (simp add: example_other_scope_def)
  have ms: "matches example_other_scope \<noteq> []"
    by (simp add: example_other_scope_def)
  from player_standings_bootstrap [OF h]
  have a: "player_standings 1 (Some example_other_scope) =
           Inr (map (\<lambda>p. (player_id p, player_name p, 0, 0)) (players example_other_scope))"
    and b: "player_standings 1 (Some example_other_scope) =
            player_standings 1 (Some (example_other_scope\<lparr>matches := []\<rparr>))"
    by blast+
  from a have "player_standings 1 (Some example_other_scope) =
     Inr [(1, ''Attila'', 0, 0), (2, ''Bleda'', 0, 0), (3, ''Rugila'', 0, 0)]"
    by (simp add: ps)
  with b h ms show ?thesis
    by blast
qed

section \<open>Failures of the standings\<close>

lemma standings_rows_no_players: "players db = [] \<Longrightarrow> standings_rows db t = []"
  by (simp add: standings_rows_def standings_query_def num_matches_def)

text \<open>
  C7, as stated, does not hold: \<^verbatim>\<open>player_standings\<close> raises no \<^verbatim>\<open>NotFoundError\<close>.
  With no player registered and no match recorded it returns the empty list for a
  tournament id that no match carries.
\<close>

theorem player_standings_not_found_counterexample:
  "player_standings 7
     (Some \<lparr>players = [], matches = [], players_id_seq = 0, matches_match_id_seq = 0\<rparr>) = Inr [] \<and>
   \<not> isl (player_standings 7
     (Some \<lparr>players = [], matches = [], players_id_seq = 0, matches_match_id_seq = 0\<rparr>))"
  by (simp add: player_standings_def connect_def total_matches_def)

text \<open>
  C7, amended. The one failure of \<^verbatim>\<open>player_standings\<close> is the \<^verbatim>\<open>TypeError\<close> of a
  connection that could not be opened. On a store that can be reached it returns a
  result for every tournament id; when no player is registered the result is the empty
  list.
\<close>

theorem player_standings_failure:
  "(player_standings t srv = Inl e \<longleftrightarrow> srv = None \<and> e = TypeError) \<and>
   (players db = [] \<longrightarrow> player_standings t (Some db) = Inr [])"
proof
  show "player_standings t srv = Inl e \<longleftrightarrow> srv = None \<and> e = TypeError"
    by (cases srv) (auto simp: player_standings_def connect_def)
  show "players db = [] \<longrightarrow> player_standings t (Some db) = Inr []"
    by (simp add: player_standings_def connect_def standings_rows_no_players)
qed

theorem player_standings_failure_witness:
  "player_standings 7 None = Inl TypeError \<and>
   players (example_round\<lparr>players := []\<rparr>) = [] \<and>
   total_matches (example_round\<lparr>players := []\<rparr>) 0 \<noteq> 0 \<and>
   player_standings 0 (Some (example_round\<lparr>players := []\<rparr>)) = Inr []"
proof -
  have t: "total_matches (example_round\<lparr>players := []\<rparr>) 0 \<noteq> 0"
    by (simp add: total_matches_def example_round_def)
  from player_standings_failure [of 7 None TypeError example_round]
       player_standings_failure [of 0 None TypeError "example_round\<lparr>players := []\<rparr>"] t
  show ?thesis by simp
qed

section \<open>Resetting the store\<close>

text \<open>
  C10. \<^verbatim>\<open>delete_players\<close> leaves both tables empty: the truncation of the players
  reaches the matches, which reference them.
\<close>

theorem delete_players_cascades:
  "delete_players (Some db) = Inr (db\<lparr>players := [], matches := []\<rparr>) \<and>
   (\<forall>db'. delete_players (Some db) = Inr db' \<longrightarrow> players db' = [] \<and> matches db' = [])"
  by (auto simp: delete_players_def connect_def matches_references_players_def)

theorem delete_players_cascades_witness:
  "delete_players (Some example_round) =
     Inr \<lparr>players = [], matches = [], players_id_seq = 4, matches_match_id_seq = 3\<rparr>"
  using delete_players_cascades [of example_round]
  by (simp add: example_round_def)

section \<open>The join over the views\<close>

text \<open>
  With unique player ids the join of the general case holds one row for each registered
  player that passes the restriction, and each row holds the counts that the views take
  over the whole \<^verbatim>\<open>matches\<close> table.
\<close>

lemma filter_key_lookup:
  "distinct xs \<Longrightarrow>
   filter (\<lambda>(x, ow). i = x) (map (\<lambda>x. (x, g x)) xs) = (if i \<in> set xs then [(i, g i)] else [])"
  by (induction xs) auto

lemma opponents_in_stranger:
  assumes "i \<notin> set (concat (map (\<lambda>m. [winner_id m, loser_id m]) ms))"
  shows "opponents_in ms i = []"
proof -
  have "\<forall>m \<in> set ms. winner_id m \<noteq> i \<and> loser_id m \<noteq> i"
    using assms by auto
  then have "concat (map (\<lambda>m. (if winner_id m = i then [loser_id m] else []) @
                              (if loser_id m = i then [winner_id m] else [])) ms) = []"
    by (induction ms) auto
  then show ?thesis
    by (simp add: opponents_in_def)
qed

lemma omw_lookup:
  "filter (\<lambda>(x, ow). i = x) (omw ms) =
     (if i \<in> set (concat (map (\<lambda>m. [winner_id m, loser_id m]) ms))
      then [(i, sum_list (map (wins_in ms) (opponents_in ms i)))] else [])"
  unfolding omw_def by (subst filter_key_lookup) simp_all

lemma subQuery_views:
  "subQuery (games_won ps ms) (omw ms) =
     map (\<lambda>p. (player_id p, player_name p, wins_in ms (player_id p),
                sum_list (map (wins_in ms) (opponents_in ms (player_id p))))) ps"
proof -
  have one: "(case filter (\<lambda>(x, ow). i = x) (omw ms) of
                [] \<Rightarrow> [(i, n, w, 0)]
              | rs \<Rightarrow> map (\<lambda>(x, ow). (i, n, w, ow)) rs) =
             [(i, n, w, sum_list (map (wins_in ms) (opponents_in ms i)))]" for i n w
    by (simp add: omw_lookup opponents_in_stranger)
  show ?thesis
    unfolding subQuery_def games_won_def
    by (induction ps) (simp_all add: one)
qed

lemma filter_unique_key:
  "distinct (map k ps) \<Longrightarrow> q \<in> set ps \<Longrightarrow> filter (\<lambda>p. k p = k q) ps = [q]"
proof (induction ps)
  case Nil
  then show ?case by simp
next
  case (Cons a ps)
  show ?case
  proof (cases "a = q")
    case True
    have "k q \<notin> k ` set ps"
      using Cons.prems True by simp
    then have "filter (\<lambda>p. k p = k q) ps = []"
      unfolding filter_empty_conv by (metis imageI)
    with True show ?thesis by simp
  next
    case False
    with Cons.prems have "q \<in> set ps" "k a \<noteq> k q"
      by auto
    with Cons show ?thesis by simp
  qed
qed

lemma standings_query_views:
  assumes "distinct (map player_id ps)"
  shows "standings_query (num_matches ps ms) (games_won ps ms) (omw ms) restricted =
         order_by (map (joined_row ms)
           (filter (\<lambda>p. if restricted then games_played_in ms (player_id p) > 0 else True) ps))"
proof -
  let ?keep = "\<lambda>p. if restricted then games_played_in ms (player_id p) > 0 else True"
  let ?sub = "\<lambda>p. (player_id p, player_name p, wins_in ms (player_id p),
                     sum_list (map (wins_in ms) (opponents_in ms (player_id p))))"
  have part: "map (\<lambda>(i, n, w, ow).
                \<lparr>r_id = i, r_name = n, r_wins = w, r_opponent_wins = ow,
                 r_games_played = games_played_in ms (player_id q)\<rparr>)
              (filter (\<lambda>(i, n, w, ow). i = player_id q \<and> ?keep q) (map ?sub ps)) =
             (if ?keep q then [joined_row ms q] else [])" if "q \<in> set ps" for q
  proof -
    have "filter (\<lambda>(i, n, w, ow). i = player_id q \<and> ?keep q) (map ?sub ps) =
          map ?sub (filter (\<lambda>p. player_id p = player_id q \<and> ?keep q) ps)"
      by (simp add: filter_map comp_def)
    also have "filter (\<lambda>p. player_id p = player_id q \<and> ?keep q) ps =
               (if ?keep q then filter (\<lambda>p. player_id p = player_id q) ps else [])"
      by simp
    also have "filter (\<lambda>p. player_id p = player_id q) ps = [q]"
      using assms that by (rule filter_unique_key)
    finally show ?thesis
      by (simp add: joined_row_def)
  qed
  have "concat (map (\<lambda>(ni, gp).
          map (\<lambda>(i, n, w, ow).
                 \<lparr>r_id = i, r_name = n, r_wins = w, r_opponent_wins = ow, r_games_played = gp\<rparr>)
              (filter (\<lambda>(i, n, w, ow). i = ni \<and> (if restricted then gp > 0 else True))
                      (map ?sub ps))) (num_matches ps ms)) =
        concat (map (\<lambda>q. if ?keep q then [joined_row ms q] else []) ps)"
    unfolding num_matches_def map_map comp_def prod.case
    by (rule arg_cong [where f = concat], rule map_cong [OF refl]) (rule part)
  also have "concat (map (\<lambda>q. if ?keep q then [joined_row ms q] else []) ps) =
             map (joined_row ms) (filter ?keep ps)"
    by (induction ps) simp_all
  finally show ?thesis
    unfolding standings_query_def subQuery_views by simp
qed

lemma standings_rows_views:
  assumes "distinct (map player_id (players db))"
  shows "standings_rows db t =
         order_by (map (joined_row (matches db))
           (filter (\<lambda>p. if t \<noteq> 0 then games_played_in (matches db) (player_id p) > 0 else True)
                   (players db)))"
  unfolding standings_rows_def using assms by (rule standings_query_views)

lemma standings_rows_hold:
  assumes "distinct (map player_id (players db))" and "r \<in> set (standings_rows db t)"
  shows "r_id r \<in> set (map player_id (players db)) \<and>
         r_wins r = wins_in (matches db) (r_id r) \<and>
         r_games_played r = games_played_in (matches db) (r_id r) \<and>
         r_opponent_wins r =
           sum_list (map (wins_in (matches db)) (opponents_in (matches db) (r_id r))) \<and>
         distinct (opponents_in (matches db) (r_id r))"
proof -
  have set_order_by: "set (order_by rs) = set rs" for rs
    by (induction rs) (simp_all add: set_order_insert)
  from assms(2) obtain p where "p \<in> set (players db)" "r = joined_row (matches db) p"
    unfolding standings_rows_views [OF assms(1)] set_order_by by auto
  then show ?thesis
    by (simp add: joined_row_def opponents_in_def)
qed

text \<open>
  The tournament id reaches the query only as the test \<open>t \<noteq> 0\<close>: two tournaments
  that both have matches get the same standings, whatever the views hold.
\<close>

lemma standings_rows_scope_blind:
  "t \<noteq> 0 \<Longrightarrow> t' \<noteq> 0 \<Longrightarrow> standings_rows db t = standings_rows db t'"
  by (simp add: standings_rows_def)

lemma player_standings_scope_blind:
  assumes "t \<noteq> 0" "t' \<noteq> 0" "total_matches db t \<noteq> 0" "total_matches db t' \<noteq> 0"
  shows "player_standings t (Some db) = player_standings t' (Some db)"
  using assms standings_rows_scope_blind [of t t' db]
  by (simp add: player_standings_def connect_def)

section \<open>The order of the standings and the tournament\<close>

text \<open>
  On a store whose matches all belong to the tournament asked for, the rows of the
  general case are in the order of the \<^verbatim>\<open>ORDER BY\<close>, and the keys of each row are the
  wins, the opponent wins and the games that its player has in that tournament.
\<close>

lemma standings_order_single_tournament:
  assumes "distinct (map player_id (players db))"
    and "matches_under t db = matches db"
    and "total_matches db t \<noteq> 0"
  shows "player_standings t (Some db) = Inr (map select_row (standings_rows db t)) \<and>
         sorted_wrt ranks_before (standings_rows db t) \<and>
         (\<forall>r \<in> set (standings_rows db t).
            r_wins r = wins_in (matches_under t db) (r_id r) \<and>
            r_opponent_wins r =
              sum_list (map (wins_in (matches_under t db))
                            (opponents_in (matches_under t db) (r_id r))) \<and>
            r_games_played r = games_played_in (matches_under t db) (r_id r))"
proof (intro conjI ballI)
  show "player_standings t (Some db) = Inr (map select_row (standings_rows db t))"
    using assms(3) by (simp add: player_standings_def connect_def)
  show "sorted_wrt ranks_before (standings_rows db t)"
    unfolding standings_rows_def standings_query_def by (rule sorted_order_by)
next
  fix r assume r: "r \<in> set (standings_rows db t)"
  note hold = standings_rows_hold [OF assms(1) r]
  show "r_wins r = wins_in (matches_under t db) (r_id r)"
    using hold by (simp add: assms(2))
  show "r_opponent_wins r =
          sum_list (map (wins_in (matches_under t db))
                        (opponents_in (matches_under t db) (r_id r)))"
    using hold by (simp add: assms(2))
  show "r_games_played r = games_played_in (matches_under t db) (r_id r)"
    using hold by (simp add: assms(2))
qed

text \<open>
  The store \<open>example_round\<close> holds matches of one tournament only. Players 1 and 4
  have no win; player 1 has lost to player 2, who has two wins, and player 4 to player 3,
  who has one, so player 1 stands before player 4.
\<close>

lemma standings_order_single_tournament_example:
  "player_standings 0 (Some example_round) =
     Inr [(2, ''Bleda'', 2, 2), (3, ''Rugila'', 1, 2), (1, ''Attila'', 0, 1), (4, ''Ernak'', 0, 1)] \<and>
   map r_opponent_wins (standings_rows example_round 0) = [1, 2, 2, 1]"
  by (simp add: example_round_def model_defs)


section \<open>Counts under one tournament and over all of them\<close>

text \<open>
  C2 fails on the code. The store \<open>example_two_scopes\<close> holds one match of
  tournament 1, won by player 1 against player 2, and two matches of tournament 2, both
  won by player 2 against player 1. Under tournament 1 alone player 1 has 1 win in 1
  game, under tournament 2 alone 0 wins in 2 games. The standings of both tournaments
  are the same list and report 1 win in 3 games for player 1: each counts the matches of
  the other tournament as well.
\<close>

theorem player_standings_counts_every_tournament:
  "player_standings 1 (Some example_two_scopes) =
     Inr [(2, ''Bleda'', 2, 3), (1, ''Attila'', 1, 3)] \<and>
   player_standings 2 (Some example_two_scopes) =
     Inr [(2, ''Bleda'', 2, 3), (1, ''Attila'', 1, 3)] \<and>
   wins_in (matches_under 1 example_two_scopes) 1 = 1 \<and>
   games_played_in (matches_under 1 example_two_scopes) 1 = 1 \<and>
   wins_in (matches_under 2 example_two_scopes) 1 = 0 \<and>
   games_played_in (matches_under 2 example_two_scopes) 1 = 2"
  by (simp add: example_two_scopes_def matches_under_def model_defs)

text \<open>
  C3 fails on the code. In \<open>example_three\<close> player 1 has faced only player 2 under
  tournament 1, and player 2 has no win there, so the opponent wins of player 1 under
  tournament 1 are 0. The rows of the standings of tournament 1 hold 2 for player 1:
  the opponents and their wins are taken from the matches of tournament 2 as well.
\<close>

theorem opponent_wins_counts_every_tournament:
  "total_matches example_three 1 \<noteq> 0 \<and>
   map (\<lambda>r. (r_id r, r_opponent_wins r)) (standings_rows example_three 1) =
     [(3, 1), (1, 2), (2, 3)] \<and>
   player_standings 1 (Some example_three) =
     Inr [(3, ''Rugila'', 2, 2), (1, ''Attila'', 1, 2), (2, ''Bleda'', 0, 2)] \<and>
   opponents_in (matches_under 1 example_three) 1 = [2] \<and>
   wins_in (matches_under 1 example_three) 2 = 0"
  by (simp add: example_three_def matches_under_def model_defs)

section \<open>Recording a match under another tournament\<close>

text \<open>
  While the tournament asked for has no match, a match recorded under another tournament
  changes neither its standings nor its pairings.
\<close>

lemma report_match_other_scope_bootstrap:
  assumes "a \<noteq> b" and "total_matches db b = 0"
    and "report_match winner loser a (Some db) = Inr db'"
  shows "player_standings b (Some db') = player_standings b (Some db) \<and>
         swiss_pairings b (Some db') = swiss_pairings b (Some db)"
proof -
  have db': "players db' = players db" "total_matches db' b = 0"
    using assms
    by (auto simp: report_match_def connect_def total_matches_def Let_def split: if_splits)
  then have "player_standings b (Some db') = player_standings b (Some db)"
    using assms(2) by (simp add: player_standings_def connect_def)
  then show ?thesis
    by (simp add: swiss_pairings_def)
qed

text \<open>
  C6 fails on the code. \<open>example_other_scope\<close> holds one match, of tournament 2.
  Recording a match of tournament 1 (player 3 beats player 1) changes the standings and
  the pairings of tournament 2: player 3, who has not played in tournament 2, now leads
  its standings.
\<close>

theorem report_match_changes_other_tournament:
  "report_match 3 1 1 (Some example_other_scope) =
     Inr (example_other_scope
            \<lparr>matches := matches example_other_scope @
               [\<lparr>match_id = 2, winner_id = 3, loser_id = 1, tournament_id = 1\<rparr>],
             matches_match_id_seq := 2\<rparr>) \<and>
   player_standings 2 (Some example_other_scope) =
     Inr [(1, ''Attila'', 1, 1), (2, ''Bleda'', 0, 1)] \<and>
   swiss_pairings 2 (Some example_other_scope) = Inr [(1, ''Attila'', 2, ''Bleda'')] \<and>
   player_standings 2 (Some (example_other_scope
            \<lparr>matches := matches example_other_scope @
               [\<lparr>match_id = 2, winner_id = 3, loser_id = 1, tournament_id = 1\<rparr>],
             matches_match_id_seq := 2\<rparr>)) =
     Inr [(3, ''Rugila'', 1, 1), (1, ''Attila'', 1, 2), (2, ''Bleda'', 0, 1)] \<and>
   swiss_pairings 2 (Some (example_other_scope
            \<lparr>matches := matches example_other_scope @
               [\<lparr>match_id = 2, winner_id = 3, loser_id = 1, tournament_id = 1\<rparr>],
             matches_match_id_seq := 2\<rparr>)) = Inr [(3, ''Rugila'', 1, ''Attila'')]"
proof -
  have before: "player_standings 2 (Some example_other_scope) =
     Inr [(1, ''Attila'', 1, 1), (2, ''Bleda'', 0, 1)]"
    by (simp add: example_other_scope_def model_defs)
  have after: "player_standings 2 (Some (example_other_scope
            \<lparr>matches := matches example_other_scope @
               [\<lparr>match_id = 2, winner_id = 3, loser_id = 1, tournament_id = 1\<rparr>],
             matches_match_id_seq := 2\<rparr>)) =
     Inr [(3, ''Rugila'', 1, 1), (1, ''Attila'', 1, 2), (2, ''Bleda'', 0, 1)]"
    by (simp add: example_other_scope_def model_defs)
  have recorded: "report_match 3 1 1 (Some example_other_scope) =
     Inr (example_other_scope
            \<lparr>matches := matches example_other_scope @
               [\<lparr>match_id = 2, winner_id = 3, loser_id = 1, tournament_id = 1\<rparr>],
             matches_match_id_seq := 2\<rparr>)"
    by (simp add: report_match_def connect_def example_other_scope_def fits_integer_def
        matches_references_players_def)
  have two: "[0..<Suc 0] = [0]" by simp
  show ?thesis
    unfolding swiss_pairings_def before after recorded
    by (simp add: pairings_loop_unfold two del: pairings_loop.simps)
qed

section \<open>Conservation\<close>

lemma sum_list_order_insert:
  "sum_list (map f (order_insert a bs)) = f a + sum_list (map f bs)"
  for f :: "ranked \<Rightarrow> int"
  by (induction bs) simp_all

lemma sum_list_order_by:
  "sum_list (map f (order_by rs)) = sum_list (map f rs)"
  for f :: "ranked \<Rightarrow> int"
  by (induction rs) (simp_all add: sum_list_order_insert)

lemma sum_list_hits:
  "distinct (map k ps) \<Longrightarrow>
   sum_list (map (\<lambda>p. if k p = a then 1 else 0) ps) = (if a \<in> set (map k ps) then 1 else (0::int))"
  by (induction ps) auto

lemma wins_in_Cons:
  "wins_in (m # ms) p = (if winner_id m = p then 1 else 0) + wins_in ms p"
  by (simp add: wins_in_def)

lemma games_played_in_Cons:
  "games_played_in (m # ms) p =
     (if winner_id m = p \<or> loser_id m = p then 1 else 0) + games_played_in ms p"
  by (simp add: games_played_in_def)

lemma sum_wins_all_players:
  assumes "distinct (map player_id ps)"
    and "\<forall>m \<in> set ms. winner_id m \<in> set (map player_id ps)"
  shows "sum_list (map (\<lambda>p. wins_in ms (player_id p)) ps) = int (length ms)"
  using assms(2)
proof (induction ms)
  case Nil
  show ?case by (simp add: wins_in_def)
next
  case (Cons m ms)
  have hit: "sum_list (map (\<lambda>p. if player_id p = winner_id m then 1 else 0) ps) = (1::int)"
    using sum_list_hits [OF assms(1), of "winner_id m"] Cons.prems by simp
  have "sum_list (map (\<lambda>p. wins_in (m # ms) (player_id p)) ps) =
        sum_list (map (\<lambda>p. if player_id p = winner_id m then 1 else 0) ps) +
        sum_list (map (\<lambda>p. wins_in ms (player_id p)) ps)"
    by (simp add: wins_in_Cons sum_list_addf eq_commute)
  with hit Cons show ?case by simp
qed

lemma sum_games_all_players:
  assumes "distinct (map player_id ps)"
    and "\<forall>m \<in> set ms. winner_id m \<in> set (map player_id ps) \<and> loser_id m \<in> set (map player_id ps)"
  shows "sum_list (map (\<lambda>p. games_played_in ms (player_id p)) ps) =
         2 * int (length ms) - int (length (filter (\<lambda>m. winner_id m = loser_id m) ms))"
  using assms(2)
proof (induction ms)
  case Nil
  show ?case by (simp add: games_played_in_def)
next
  case (Cons m ms)
  have w: "sum_list (map (\<lambda>p. if player_id p = winner_id m then 1 else 0) ps) = (1::int)"
    using sum_list_hits [OF assms(1), of "winner_id m"] Cons.prems by simp
  have l: "sum_list (map (\<lambda>p. if player_id p = loser_id m then 1 else 0) ps) = (1::int)"
    using sum_list_hits [OF assms(1), of "loser_id m"] Cons.prems by simp
  have split: "sum_list (map (\<lambda>p. games_played_in (m # ms) (player_id p)) ps) =
        sum_list (map (\<lambda>p. if winner_id m = player_id p \<or> loser_id m = player_id p
                             then 1 else 0) ps) +
        sum_list (map (\<lambda>p. games_played_in ms (player_id p)) ps)"
    by (simp add: games_played_in_Cons sum_list_addf)
  have ih: "sum_list (map (\<lambda>p. games_played_in ms (player_id p)) ps) =
        2 * int (length ms) - int (length (filter (\<lambda>m. winner_id m = loser_id m) ms))"
    using Cons by simp
  show ?case
  proof (cases "winner_id m = loser_id m")
    case True
    then have "(\<lambda>p. if winner_id m = player_id p \<or> loser_id m = player_id p then 1 else (0::int)) =
               (\<lambda>p. if player_id p = winner_id m then 1 else 0)"
      by auto
    from w have "sum_list (map (\<lambda>p. if winner_id m = player_id p \<or> loser_id m = player_id p
                             then 1 else (0::int)) ps) = 1"
      unfolding \<open>(\<lambda>p. if winner_id m = player_id p \<or> loser_id m = player_id p then 1 else (0::int)) =
               (\<lambda>p. if player_id p = winner_id m then 1 else 0)\<close> .
    with split ih True show ?thesis by simp
  next
    case False
    then have eq2: "(\<lambda>p. if winner_id m = player_id p \<or> loser_id m = player_id p then 1 else (0::int)) =
               (\<lambda>p. (if player_id p = winner_id m then 1 else 0) +
                     (if player_id p = loser_id m then 1 else 0))"
      by auto
    have "sum_list (map (\<lambda>p. (if player_id p = winner_id m then 1 else 0) +
                     (if player_id p = loser_id m then 1 else (0::int))) ps) = 2"
      unfolding sum_list_addf w l by simp
    then have "sum_list (map (\<lambda>p. if winner_id m = player_id p \<or> loser_id m = player_id p
                             then 1 else (0::int)) ps) = 2"
      unfolding eq2 .
    with split ih False show ?thesis by simp
  qed
qed

lemma wins_le_games: "wins_in ms p \<le> games_played_in ms p"
  unfolding wins_in_def games_played_in_def
  by (induction ms) auto

lemma games_nonneg: "0 \<le> games_played_in ms p"
  by (simp add: games_played_in_def)

lemma wins_nonneg: "0 \<le> wins_in ms p"
  by (simp add: wins_in_def)

lemma sum_list_filter_zero:
  "(\<And>p. p \<in> set ps \<Longrightarrow> \<not> keep p \<Longrightarrow> f p = (0::int)) \<Longrightarrow>
   sum_list (map f (filter keep ps)) = sum_list (map f ps)"
  by (induction ps) auto

lemma sum_wins_standings_rows:
  assumes "store_constraints db"
  shows "sum_list (map r_wins (standings_rows db t)) = int (length (matches db))"
proof -
  let ?ms = "matches db" and ?ps = "players db"
  let ?keep = "\<lambda>p. if t \<noteq> 0 then games_played_in ?ms (player_id p) > 0 else True"
  have d: "distinct (map player_id ?ps)"
    and w: "\<forall>m \<in> set ?ms. winner_id m \<in> set (map player_id ?ps)"
    using assms by (simp_all add: store_constraints_def)
  have zero: "wins_in ?ms (player_id p) = 0" if "\<not> ?keep p" for p
    using that wins_le_games [of ?ms "player_id p"] wins_nonneg [of ?ms "player_id p"]
    by (simp split: if_splits)
  have "sum_list (map r_wins (standings_rows db t)) =
        sum_list (map (\<lambda>p. wins_in ?ms (player_id p)) (filter ?keep ?ps))"
    by (simp add: standings_rows_views [OF d] sum_list_order_by comp_def joined_row_def)
  also have "\<dots> = sum_list (map (\<lambda>p. wins_in ?ms (player_id p)) ?ps)"
    by (rule sum_list_filter_zero) (rule zero)
  also have "\<dots> = int (length ?ms)"
    using d w by (rule sum_wins_all_players)
  finally show ?thesis .
qed

lemma sum_games_standings_rows:
  assumes "store_constraints db"
  shows "sum_list (map r_games_played (standings_rows db t)) =
         2 * int (length (matches db)) -
         int (length (filter (\<lambda>m. winner_id m = loser_id m) (matches db)))"
proof -
  let ?ms = "matches db" and ?ps = "players db"
  let ?keep = "\<lambda>p. if t \<noteq> 0 then games_played_in ?ms (player_id p) > 0 else True"
  have d: "distinct (map player_id ?ps)"
    and wl: "\<forall>m \<in> set ?ms. winner_id m \<in> set (map player_id ?ps) \<and>
                               loser_id m \<in> set (map player_id ?ps)"
    using assms by (simp_all add: store_constraints_def)
  have zero: "games_played_in ?ms (player_id p) = 0" if "\<not> ?keep p" for p
    using that games_nonneg [of ?ms "player_id p"]
    by (simp split: if_splits)
  have "sum_list (map r_games_played (standings_rows db t)) =
        sum_list (map (\<lambda>p. games_played_in ?ms (player_id p)) (filter ?keep ?ps))"
    by (simp add: standings_rows_views [OF d] sum_list_order_by comp_def joined_row_def)
  also have "\<dots> = sum_list (map (\<lambda>p. games_played_in ?ms (player_id p)) ?ps)"
    by (rule sum_list_filter_zero) (rule zero)
  also have "\<dots> = 2 * int (length ?ms) -
                    int (length (filter (\<lambda>m. winner_id m = loser_id m) ?ms))"
    using d wl by (rule sum_games_all_players)
  finally show ?thesis .
qed

text \<open>
  On a store that satisfies the constraints of the schema, whose matches all belong to
  the tournament asked for and none of which a player played against themself, the wins
  of the standings add up to the number of matches and the games to twice that number.
\<close>

lemma standings_conservation_single_tournament:
  assumes "store_constraints db"
    and "matches_under t db = matches db"
    and "\<forall>m \<in> set (matches db). winner_id m \<noteq> loser_id m"
    and "player_standings t (Some db) = Inr rows"
  shows "sum_wins rows = total_matches db t \<and> sum_games_played rows = 2 * total_matches db t"
proof (cases "total_matches db t = 0")
  case True
  have "rows = map (\<lambda>p. (player_id p, player_name p, 0, 0)) (players db)"
    using assms(4) True by (simp add: player_standings_def connect_def)
  then show ?thesis
    using True by (simp add: comp_def sum_wins_def sum_games_played_def)
next
  case False
  have total: "total_matches db t = int (length (matches db))"
    using assms(2) by (simp add: total_matches_def matches_under_def)
  have none: "filter (\<lambda>m. winner_id m = loser_id m) (matches db) = []"
    using assms(3) by (simp add: filter_empty_conv)
  have rows: "rows = map select_row (standings_rows db t)"
    using assms(4) False by (simp add: player_standings_def connect_def)
  have "sum_wins rows = sum_list (map r_wins (standings_rows db t))"
    by (simp add: rows comp_def select_row_def sum_wins_def)
  moreover have "sum_games_played rows = sum_list (map r_games_played (standings_rows db t))"
    by (simp add: rows comp_def select_row_def sum_games_played_def)
  ultimately show ?thesis
    using sum_wins_standings_rows [OF assms(1), of t] sum_games_standings_rows [OF assms(1), of t]
    by (simp add: total none)
qed

text \<open>
  C8 fails on the code. \<open>example_two_scopes\<close> holds one match of tournament 1 and
  two of tournament 2. The standings are the same list for both tournaments; its wins
  add up to 3 and its games to 6, where the claim gives 1 and 2 for tournament 1 and
  2 and 4 for tournament 2.
\<close>

theorem standings_sums_count_every_tournament:
  "total_matches example_two_scopes 1 = 1 \<and>
   total_matches example_two_scopes 2 = 2 \<and>
   map_sum id sum_wins (player_standings 1 (Some example_two_scopes)) = Inr 3 \<and>
   map_sum id sum_games_played (player_standings 1 (Some example_two_scopes)) = Inr 6 \<and>
   map_sum id sum_wins (player_standings 2 (Some example_two_scopes)) = Inr 3 \<and>
   map_sum id sum_games_played (player_standings 2 (Some example_two_scopes)) = Inr 6"
  by (simp add: example_two_scopes_def model_defs sum_wins_def sum_games_played_def)

end
